theory Spec2Isabelle
  imports Complex_Main
begin

section \<open>JavaScript values\<close>

text \<open>
  The sources are JavaScript and inspect their arguments dynamically (\<^verbatim>\<open>typeof\<close>,
  \<^verbatim>\<open>Array.isArray\<close>, truthiness), so the values they handle are modelled by one
  datatype of JavaScript values: the JSON values plus \<^verbatim>\<open>undefined\<close>. An object is an
  association list in insertion order; a well-formed object has distinct keys, and a
  lookup takes the first binding. JavaScript enumerates keys that look like array
  indices before the others; the model keeps them where they were inserted, and no
  result below depends on the order of keys. Numbers are rationals: the doubles of
  the sources are idealised, which matters nowhere below.
\<close>

datatype jsval =
    JUndefined
  | JNull
  | JBool bool
  | JNum rat
  | JStr string
  | JArr "jsval list"
  | JObj "(string \<times> jsval) list"

text \<open>Property read \<^verbatim>\<open>v?.k\<close>: \<^verbatim>\<open>undefined\<close> when the key is absent or \<open>v\<close> has no such
  own property.\<close>

fun getp :: "jsval \<Rightarrow> string \<Rightarrow> jsval" where
  "getp (JObj kvs) k = (case map_of kvs k of Some v \<Rightarrow> v | None \<Rightarrow> JUndefined)"
| "getp v k = JUndefined"

text \<open>\<^verbatim>\<open>k in v\<close> / \<^verbatim>\<open>hasOwnProperty\<close> for a plain object.\<close>

fun hasp :: "jsval \<Rightarrow> string \<Rightarrow> bool" where
  "hasp (JObj kvs) k = (k \<in> set (map fst kvs))"
| "hasp v k = False"

text \<open>JavaScript truthiness (\<^verbatim>\<open>if (v)\<close>, \<^verbatim>\<open>a || b\<close>, \<^verbatim>\<open>Boolean(v)\<close>).\<close>

fun truthy :: "jsval \<Rightarrow> bool" where
  "truthy JUndefined = False"
| "truthy JNull = False"
| "truthy (JBool b) = b"
| "truthy (JNum r) = (r \<noteq> 0)"
| "truthy (JStr s) = (s \<noteq> [])"
| "truthy (JArr xs) = True"
| "truthy (JObj kvs) = True"

text \<open>\<^verbatim>\<open>a || b\<close> on values.\<close>

definition js_or :: "jsval \<Rightarrow> jsval \<Rightarrow> jsval" where
  "js_or a b = (if truthy a then a else b)"

text \<open>\<^verbatim>\<open>a ?? b\<close> on values.\<close>

definition js_nullish :: "jsval \<Rightarrow> jsval \<Rightarrow> jsval" where
  "js_nullish a b = (if a = JUndefined \<or> a = JNull then b else a)"

text \<open>\<^verbatim>\<open>v && typeof v === "object"\<close>: arrays and plain objects.\<close>

fun isObjectLike :: "jsval \<Rightarrow> bool" where
  "isObjectLike (JArr xs) = True"
| "isObjectLike (JObj kvs) = True"
| "isObjectLike v = False"

text \<open>\<^verbatim>\<open>v && typeof v === "object" && !Array.isArray(v)\<close>: plain objects only.\<close>

fun isPlainObject :: "jsval \<Rightarrow> bool" where
  "isPlainObject (JObj kvs) = True"
| "isPlainObject v = False"

text \<open>\<^verbatim>\<open>Array.isArray(v) ? v : []\<close>.\<close>

fun arrayOrEmpty :: "jsval \<Rightarrow> jsval list" where
  "arrayOrEmpty (JArr xs) = xs"
| "arrayOrEmpty v = []"

text \<open>Assignment \<^verbatim>\<open>o[k] = v\<close> on the bindings of an object: an existing key keeps
  its place and takes the new value, a new key is appended.\<close>

fun obj_set :: "(string \<times> jsval) list \<Rightarrow> string \<Rightarrow> jsval \<Rightarrow> (string \<times> jsval) list" where
  "obj_set [] k v = [(k, v)]"
| "obj_set ((k', v') # kvs) k v =
     (if k' = k then (k, v) # kvs else (k', v') # obj_set kvs k v)"

subsection \<open>The string coercion\<close>

text \<open>
  \<^verbatim>\<open>normalizeString\<close> is imported from the utility module, which is not part of the
  sources at hand. Every function below that calls it takes it as a parameter, so the
  general results hold for any such coercion. Where a concrete run needs one, the
  following reading is used: a string is trimmed of ASCII white space, anything else
  becomes the empty string.
\<close>

definition is_space :: "char \<Rightarrow> bool" where
  "is_space c = (c \<in> set [CHR '' '', CHR 0x09, CHR 0x0A, CHR 0x0B, CHR 0x0C, CHR 0x0D])"

definition trim :: "string \<Rightarrow> string" where
  "trim s = rev (dropWhile is_space (rev (dropWhile is_space s)))"

definition normalizeString_trim :: "jsval \<Rightarrow> string" where
  "normalizeString_trim v = (case v of JStr s \<Rightarrow> trim s | _ \<Rightarrow> [])"

subsection \<open>Numbers in text\<close>

text \<open>\<^verbatim>\<open>String(n)\<close> for a natural number \<open>n\<close>, as template strings and array keys
  render it.\<close>

definition digit_char :: "nat \<Rightarrow> char" where
  "digit_char k = char_of (of_char (CHR ''0'') + k)"

fun decimal :: "nat \<Rightarrow> string" where
  "decimal n =
     (if n div 10 = 0 then [digit_char n]
      else decimal (n div 10) @ [digit_char (n mod 10)])"

declare decimal.simps [simp del]


section \<open>Collecting a chat stream\<close>

text \<open>
  \<^verbatim>\<open>collectChatStream(gen, { maxChunks = 500 } = {})\<close> drains an asynchronous generator.
  A finished stream is the list of the chunks it yields. The loop stops, before
  looking at the next chunk, once \<open>maxChunks\<close> chunks have been kept.
\<close>

text \<open>The returned object \<^verbatim>\<open>{ chunks, nodes, text, stop_reason }\<close>.\<close>

record collected =
  out_chunks :: "jsval list"
  out_nodes :: "jsval list"
  out_text :: string
  out_stop_reason :: jsval

definition collect_init :: collected where
  "collect_init = \<lparr> out_chunks = [], out_nodes = [], out_text = [], out_stop_reason = JNull \<rparr>"

text \<open>\<^verbatim>\<open>typeof ch?.text === "string" && ch.text\<close>: the text a chunk contributes.\<close>

definition chunk_text :: "jsval \<Rightarrow> string" where
  "chunk_text ch = (case getp ch ''text'' of JStr s \<Rightarrow> s | _ \<Rightarrow> [])"

text \<open>\<^verbatim>\<open>Array.isArray(ch?.nodes)\<close>: the nodes a chunk contributes.\<close>

definition chunk_nodes :: "jsval \<Rightarrow> jsval list" where
  "chunk_nodes ch = arrayOrEmpty (getp ch ''nodes'')"

text \<open>\<^verbatim>\<open>ch && typeof ch === "object" && "stop_reason" in ch\<close>.\<close>

definition chunk_has_stop :: "jsval \<Rightarrow> bool" where
  "chunk_has_stop ch = (isObjectLike ch \<and> hasp ch ''stop_reason'')"

text \<open>One iteration of the loop body after the cap check.\<close>

definition collect_step :: "jsval \<Rightarrow> collected \<Rightarrow> collected" where
  "collect_step ch acc =
     \<lparr> out_chunks = out_chunks acc @ [ch],
       out_nodes = out_nodes acc @ chunk_nodes ch,
       out_text = out_text acc @ chunk_text ch,
       out_stop_reason =
         (if chunk_has_stop ch then getp ch ''stop_reason'' else out_stop_reason acc) \<rparr>"

fun collect_loop :: "nat \<Rightarrow> jsval list \<Rightarrow> collected \<Rightarrow> collected" where
  "collect_loop maxChunks [] acc = acc"
| "collect_loop maxChunks (ch # gen) acc =
     (if length (out_chunks acc) \<ge> maxChunks then acc
      else collect_loop maxChunks gen (collect_step ch acc))"

definition collectChatStream :: "nat \<Rightarrow> jsval list \<Rightarrow> collected" where
  "collectChatStream maxChunks gen = collect_loop maxChunks gen collect_init"

text \<open>Every call site in the sources passes no options, so the cap is 500.\<close>

definition collectChatStream_default :: "jsval list \<Rightarrow> collected" where
  "collectChatStream_default gen = collectChatStream 500 gen"

text \<open>The stop reason a whole chunk list ends with: that of the last chunk carrying
  one, \<^verbatim>\<open>null\<close> when none does.\<close>

definition final_stop :: "jsval list \<Rightarrow> jsval" where
  "final_stop gen =
     (case filter chunk_has_stop gen of
        [] \<Rightarrow> JNull
      | c # cs \<Rightarrow> getp (last (c # cs)) ''stop_reason'')"

text \<open>A stream of 501 chunks: 500 text deltas, then the terminal chunk.\<close>

definition long_stream :: "jsval list" where
  "long_stream =
     replicate 500 (JObj [(''text'', JStr ''a'')]) @
     [JObj [(''text'', JStr ''b''), (''stop_reason'', JNum 1)]]"


section \<open>Sampling a JSON value from a schema\<close>

text \<open>
  \<^verbatim>\<open>sampleJsonFromSchema(schema, depth)\<close> of the self-test. Two coercions it uses are
  not code of the module and are parameters: \<open>normalizeString\<close>, and the text-to-number
  conversion behind \<^verbatim>\<open>Number(v)\<close> for a string or an array (\<open>numOfText\<close>, \<open>None\<close> when
  the result is not a finite number). The depth is a natural number: every caller
  passes \<open>0\<close> and the function itself passes \<open>d + 1\<close>.
\<close>

text \<open>\<^verbatim>\<open>Number(v)\<close> when \<^verbatim>\<open>Number.isFinite(Number(v))\<close>, otherwise \<open>None\<close>.\<close>

fun toNumber :: "(jsval \<Rightarrow> rat option) \<Rightarrow> jsval \<Rightarrow> rat option" where
  "toNumber numOfText JUndefined = None"
| "toNumber numOfText JNull = Some 0"
| "toNumber numOfText (JBool b) = Some (if b then 1 else 0)"
| "toNumber numOfText (JNum r) = Some r"
| "toNumber numOfText (JStr s) = numOfText (JStr s)"
| "toNumber numOfText (JArr xs) = numOfText (JArr xs)"
| "toNumber numOfText (JObj kvs) = None"

text \<open>\<^verbatim>\<open>toLowerCase\<close> on ASCII letters.\<close>

definition lower_char :: "char \<Rightarrow> char" where
  "lower_char c =
     (if (65::nat) \<le> of_char c \<and> of_char c \<le> (90::nat)
      then char_of (of_char c + (32::nat)) else c)"

definition toLowerCase :: "string \<Rightarrow> string" where
  "toLowerCase s = map lower_char s"

text \<open>\<^verbatim>\<open>Array.isArray(list) && list.length\<close>.\<close>

fun nonEmptyArray :: "jsval \<Rightarrow> bool" where
  "nonEmptyArray (JArr (x # xs)) = True"
| "nonEmptyArray v = False"

text \<open>\<^verbatim>\<open>(Array.isArray(list) && list.length ? list[0] : null)\<close>.\<close>

fun pickFirst :: "jsval \<Rightarrow> jsval" where
  "pickFirst (JArr (x # xs)) = x"
| "pickFirst v = JNull"

text \<open>The normalised, lower-cased, non-empty type names of a schema node.\<close>

definition schema_types :: "(jsval \<Rightarrow> string) \<Rightarrow> jsval \<Rightarrow> string list" where
  "schema_types normalizeString typeRaw =
     filter (\<lambda>t. t \<noteq> [])
       (case typeRaw of
          JArr xs \<Rightarrow> map (\<lambda>x. toLowerCase (normalizeString x)) xs
        | _ \<Rightarrow> [toLowerCase (normalizeString typeRaw)])"

text \<open>\<^verbatim>\<open>s.required\<close> as the list of its normalised non-empty entries.\<close>

definition required_names :: "(jsval \<Rightarrow> string) \<Rightarrow> jsval \<Rightarrow> string list" where
  "required_names normalizeString req =
     filter (\<lambda>k. k \<noteq> []) (map normalizeString (arrayOrEmpty req))"

text \<open>The keys sampled for an object node: the required names that are declared
  properties when there is any required name, otherwise all declared properties.\<close>

definition chosen_keys :: "(jsval \<Rightarrow> string) \<Rightarrow> jsval \<Rightarrow> string list" where
  "chosen_keys normalizeString s =
     (let required = required_names normalizeString (getp s ''required'');
          keys = (case getp s ''properties'' of JObj kvs \<Rightarrow> map fst kvs | _ \<Rightarrow> [])
      in if required \<noteq> [] then filter (\<lambda>k. k \<in> set keys) required else keys)"

text \<open>A count read from a schema field: \<^verbatim>\<open>Math.floor(Number(v))\<close> when the number is
  finite and positive, otherwise \<open>0\<close>.\<close>

definition positive_floor :: "(jsval \<Rightarrow> rat option) \<Rightarrow> jsval \<Rightarrow> nat" where
  "positive_floor numOfText v =
     (case toNumber numOfText v of
        Some r \<Rightarrow> if r > 0 then nat \<lfloor>r\<rfloor> else 0
      | None \<Rightarrow> 0)"

text \<open>The branches for a node that is neither a union, an object nor an array.\<close>

definition sample_scalar :: "(jsval \<Rightarrow> rat option) \<Rightarrow> string list \<Rightarrow> jsval \<Rightarrow> jsval" where
  "sample_scalar numOfText types s =
     (if ''integer'' \<in> set types then
        (case toNumber numOfText (getp s ''minimum'') of
           Some r \<Rightarrow> JNum (of_int \<lfloor>r\<rfloor>)
         | None \<Rightarrow>
            (case toNumber numOfText (getp s ''exclusiveMinimum'') of
               Some r \<Rightarrow> JNum (of_int \<lfloor>r\<rfloor> + 1)
             | None \<Rightarrow> JNum 1))
      else if ''number'' \<in> set types then
        (case toNumber numOfText (getp s ''minimum'') of
           Some r \<Rightarrow> JNum r
         | None \<Rightarrow>
            (case toNumber numOfText (getp s ''exclusiveMinimum'') of
               Some r \<Rightarrow> JNum (r + 1)
             | None \<Rightarrow> JNum 1))
      else if ''boolean'' \<in> set types then JBool True
      else if ''null'' \<in> set types then JNull
      else if ''string'' \<in> set types then
        JStr (replicate (min 16 (max 1 (positive_floor numOfText (getp s ''minLength'')))) (CHR ''x''))
      else JObj [])"

function sampleJsonFromSchema ::
  "(jsval \<Rightarrow> string) \<Rightarrow> (jsval \<Rightarrow> rat option) \<Rightarrow> jsval \<Rightarrow> nat \<Rightarrow> jsval" where
  "sampleJsonFromSchema normalizeString numOfText schema d =
     (if d > 8 then JObj []
      else
        let s = (if isPlainObject schema then schema else JObj []) in
        if hasp s ''const'' then getp s ''const''
        else if nonEmptyArray (getp s ''enum'') then pickFirst (getp s ''enum'')
        else if hasp s ''default'' then getp s ''default''
        else
          let union = js_or (js_or (pickFirst (getp s ''oneOf'')) (pickFirst (getp s ''anyOf'')))
                        (pickFirst (getp s ''allOf'')) in
          if truthy union then sampleJsonFromSchema normalizeString numOfText union (d + 1)
          else
            let types = schema_types normalizeString (getp s ''type'');
                props = getp s ''properties'' in
            if ''object'' \<in> set types \<or> isPlainObject props then
              JObj (foldl (\<lambda>out k. obj_set out k
                        (sampleJsonFromSchema normalizeString numOfText (getp props k) (d + 1)))
                    [] (take 60 (chosen_keys normalizeString s)))
            else if ''array'' \<in> set types \<or> truthy (getp s ''items'') then
              JArr (replicate (min 3 (positive_floor numOfText (getp s ''minItems'')))
                      (sampleJsonFromSchema normalizeString numOfText (getp s ''items'') (d + 1)))
            else sample_scalar numOfText types s)"
  by pat_completeness auto
termination
  by (relation "measure (\<lambda>(normalizeString, numOfText, schema, d). 9 - d)") auto

declare sampleJsonFromSchema.simps [simp del]

text \<open>The values \<^verbatim>\<open>JSON.stringify\<close> renders in full: the trees without
  \<^verbatim>\<open>undefined\<close>.\<close>

fun is_json_value :: "jsval \<Rightarrow> bool" where
  "is_json_value JUndefined = False"
| "is_json_value JNull = True"
| "is_json_value (JBool b) = True"
| "is_json_value (JNum r) = True"
| "is_json_value (JStr s) = True"
| "is_json_value (JArr xs) = list_all is_json_value xs"
| "is_json_value (JObj kvs) = list_all (\<lambda>kv. is_json_value (snd kv)) kvs"

text \<open>The schema of the round-trip example.\<close>

definition ab_schema :: jsval where
  "ab_schema =
     JObj [(''type'', JStr ''object''),
           (''required'', JArr [JStr ''a'', JStr ''b'']),
           (''properties'', JObj [(''a'', JObj [(''type'', JStr ''string'')]),
                                  (''b'', JObj [(''type'', JStr ''integer'')])])]"

text \<open>A text-to-number conversion for runs in which no text is converted.\<close>

definition no_text_number :: "jsval \<Rightarrow> rat option" where
  "no_text_number v = None"


section \<open>Tool definitions: de-duplication by name\<close>

text \<open>
  \<^verbatim>\<open>dedupeToolDefsByName(toolDefs)\<close>: the loop keeps \<open>seen\<close> (the names met so far)
  and \<open>out\<close> (the definitions kept). An entry that is not an object, or whose
  normalised name is empty or already seen, is skipped.
\<close>

definition tool_name :: "(jsval \<Rightarrow> string) \<Rightarrow> jsval \<Rightarrow> string" where
  "tool_name normalizeString d = normalizeString (getp d ''name'')"

fun dedupe_loop ::
  "(jsval \<Rightarrow> string) \<Rightarrow> jsval list \<Rightarrow> string list \<Rightarrow> jsval list \<Rightarrow> jsval list" where
  "dedupe_loop normalizeString [] seen out = out"
| "dedupe_loop normalizeString (d # defs) seen out =
     (if \<not> isObjectLike d then dedupe_loop normalizeString defs seen out
      else
        let name = tool_name normalizeString d in
        if name = [] \<or> name \<in> set seen then dedupe_loop normalizeString defs seen out
        else dedupe_loop normalizeString defs (seen @ [name]) (out @ [d]))"

definition dedupeToolDefsByName :: "(jsval \<Rightarrow> string) \<Rightarrow> jsval \<Rightarrow> jsval list" where
  "dedupeToolDefsByName normalizeString toolDefs =
     dedupe_loop normalizeString (arrayOrEmpty toolDefs) [] []"




section \<open>The real-tool round-trip probe\<close>

subsection \<open>Tool uses in response nodes\<close>






subsection \<open>Choosing the tools to probe\<close>














subsection \<open>The probe\<close>





















definition cx_schema :: "jsval \<Rightarrow> jsval" where
  "cx_schema d = getp d ''input_schema''"


section \<open>The summary of the captured tool schemas\<close>






section \<open>Model discovery with a versioned fallback\<close>

text \<open>\<^verbatim>\<open>s.includes(sub)\<close>.\<close>

fun str_includes :: "string \<Rightarrow> string \<Rightarrow> bool" where
  "str_includes [] sub = (sub = [])"
| "str_includes (c # cs) sub = (take (length sub) (c # cs) = sub \<or> str_includes cs sub)"

text \<open>\<^verbatim>\<open>uniqKeepOrder(xs)\<close>: the normalised non-empty entries, first occurrences only.\<close>

fun uniq_loop :: "(jsval \<Rightarrow> string) \<Rightarrow> jsval list \<Rightarrow> string list \<Rightarrow> string list" where
  "uniq_loop normalizeString [] out = out"
| "uniq_loop normalizeString (it # xs) out =
     (let s = normalizeString it
      in if s = [] \<or> s \<in> set out then uniq_loop normalizeString xs out
         else uniq_loop normalizeString xs (out @ [s]))"

definition uniqKeepOrder :: "(jsval \<Rightarrow> string) \<Rightarrow> jsval \<Rightarrow> string list" where
  "uniqKeepOrder normalizeString xs = uniq_loop normalizeString (arrayOrEmpty xs) []"

text \<open>\<^verbatim>\<open>m?.id ?? m?.name ?? m?.model ?? ""\<close>.\<close>

definition model_id_of :: "jsval \<Rightarrow> jsval" where
  "model_id_of m =
     js_nullish (js_nullish (js_nullish (getp m ''id'') (getp m ''name'')) (getp m ''model''))
       (JStr [])"

definition parseModelIds :: "(jsval \<Rightarrow> string) \<Rightarrow> jsval \<Rightarrow> string list" where
  "parseModelIds normalizeString json =
     (if \<not> isObjectLike json then []
      else case getp json ''data'' of
        JArr dat \<Rightarrow> uniqKeepOrder normalizeString (JArr (map model_id_of dat))
      | _ \<Rightarrow>
        (case getp json ''models'' of
           JArr models \<Rightarrow>
             uniqKeepOrder normalizeString
               (JArr (map (\<lambda>m. case m of JStr s \<Rightarrow> JStr s | _ \<Rightarrow> model_id_of m) models))
         | _ \<Rightarrow>
           (case getp json ''model_ids'' of
              JArr ids \<Rightarrow> uniqKeepOrder normalizeString (JArr ids)
            | _ \<Rightarrow>
              (case getp json ''modelIds'' of
                 JArr ids \<Rightarrow> uniqKeepOrder normalizeString (JArr ids)
               | _ \<Rightarrow> []))))"

text \<open>
  The transport is the environment: \<open>fetch url\<close> is what \<^verbatim>\<open>fetchWithRetry\<close> does for a
  GET of \<open>url\<close>, either a thrown error or a response, of which the status and the body
  as \<^verbatim>\<open>resp.json().catch(() => null)\<close> reads it are kept.
\<close>

record http_response =
  resp_status :: nat
  resp_body :: jsval

definition resp_ok :: "http_response \<Rightarrow> bool" where
  "resp_ok resp = (200 \<le> resp_status resp \<and> resp_status resp \<le> 299)"

datatype fetch_error =
    TransportError string
  | UpstreamHttpError nat
  | NoParsableModels
  | AllNotFound nat
  | ApiKeyMissing

text \<open>The loop of \<^verbatim>\<open>fetchModelsWithFallback\<close>. Beside the outcome, the model returns
  the local list \<open>tried\<close> as it stands when the function is left: the URLs requested,
  in order. The code itself reports only its length, in the error of the last line.\<close>

fun fetch_loop ::
  "(jsval \<Rightarrow> string) \<Rightarrow> (string \<Rightarrow> string + http_response) \<Rightarrow> string list \<Rightarrow> string list \<Rightarrow>
   string list \<times> (fetch_error + string list)" where
  "fetch_loop normalizeString fetch [] tried = (tried, Inl (AllNotFound (length tried)))"
| "fetch_loop normalizeString fetch (url # urls) tried =
     (case fetch url of
        Inl err \<Rightarrow> (tried @ [url], Inl (TransportError err))
      | Inr resp \<Rightarrow>
          if \<not> resp_ok resp then
            (if resp_status resp = 404 then fetch_loop normalizeString fetch urls (tried @ [url])
             else (tried @ [url], Inl (UpstreamHttpError (resp_status resp))))
          else
            let models = parseModelIds normalizeString (resp_body resp)
            in if models \<noteq> [] then (tried @ [url], Inr models)
               else (tried @ [url], Inl NoParsableModels))"

definition fetchModelsWithFallback ::
  "(jsval \<Rightarrow> string) \<Rightarrow> (string \<Rightarrow> string + http_response) \<Rightarrow> string list \<Rightarrow>
   string list \<times> (fetch_error + string list)" where
  "fetchModelsWithFallback normalizeString fetch urls =
     fetch_loop normalizeString fetch (uniqKeepOrder normalizeString (JArr (map JStr urls))) []"


text \<open>\<^verbatim>\<open>fetchGeminiAiStudioModels\<close>: the fallback prefix is \<^verbatim>\<open>v1beta\<close>, and every URL gets
  the key as a query parameter (\<open>withKey\<close>, built on the host's URL class, is a
  parameter); an empty URL is dropped.\<close>

definition fetchGeminiAiStudioModels ::
  "(jsval \<Rightarrow> string) \<Rightarrow> (string \<Rightarrow> string \<Rightarrow> string) \<Rightarrow> (string \<Rightarrow> string) \<Rightarrow>
   (string \<Rightarrow> string + http_response) \<Rightarrow> string \<Rightarrow> bool \<Rightarrow>
   string list \<times> (fetch_error + string list)" where
  "fetchGeminiAiStudioModels normalizeString joinBaseUrl withKey fetch b hasAuth =
     (if \<not> hasAuth then ([], Inl ApiKeyMissing)
      else
        let urls = [joinBaseUrl b ''models''] @
                   (if \<not> str_includes b ''/v1beta'' then [joinBaseUrl b ''v1beta/models''] else []);
            keyed = filter (\<lambda>u. u \<noteq> []) (map (\<lambda>u. if u = [] then [] else withKey u) urls)
        in fetchModelsWithFallback normalizeString fetch keyed)"






section \<open>The call interception of the runtime shim\<close>












section \<open>Merging the upstream model list with the BYOK models\<close>

text \<open>
  \<^verbatim>\<open>mergeModels(upstreamJson, byokModelNames, opts)\<close> of the official-backend helpers.
  Three helpers it calls live in modules that are not part of the sources at hand and
  are parameters of the model: \<open>normalizeString\<close> (a coercion to a trimmed string),
  \<open>makeModelInfo\<close> (the model entry built for a BYOK name) and
  \<open>ensureModelRegistryFeatureFlags\<close> (applied to the upstream flags, the BYOK names and
  the chosen default model). The BYOK names are a list of strings, as the caller
  builds them.
\<close>

text \<open>\<^verbatim>\<open>{...base}\<close>: the own enumerable properties of \<open>base\<close>.\<close>

fun spread :: "jsval \<Rightarrow> (string \<times> jsval) list" where
  "spread (JObj kvs) = kvs"
| "spread (JArr xs) = zip (map decimal [0..<length xs]) xs"
| "spread v = []"











section \<open>The strict-schema validator\<close>

text \<open>
  \<^verbatim>\<open>validateOpenAiStrictJsonSchema(schema, issues, path, depth)\<close> appends its findings to
  the array \<open>issues\<close>; the model returns the findings of a call, in the order in which
  they are pushed.
\<close>

fun isArray :: "jsval \<Rightarrow> bool" where
  "isArray (JArr xs) = True"
| "isArray v = False"

text \<open>\<^verbatim>\<open>Object.keys(o)\<close> for a plain object (and nothing for anything else).\<close>

fun obj_keys :: "jsval \<Rightarrow> string list" where
  "obj_keys (JObj kvs) = map fst kvs"
| "obj_keys v = []"

text \<open>\<^verbatim>\<open>`${path ? path + "." : ""}name`\<close> and \<^verbatim>\<open>path || "<root>"\<close>.\<close>

definition sub_path :: "string \<Rightarrow> string \<Rightarrow> string" where
  "sub_path path name = (if path \<noteq> [] then path @ ''.'' else []) @ name"

definition root_or :: "string \<Rightarrow> string" where
  "root_or path = (if path \<noteq> [] then path else ''<root>'')"

text \<open>The keywords the validator descends into: those holding a schema (or an array
  of schemas), those that must hold an array of schemas, and those holding a map
  from names to schemas.\<close>

definition single_schema_keys :: "string list" where
  "single_schema_keys = [''items'', ''prefixItems'', ''not'', ''if'', ''then'', ''else'']"

definition union_schema_keys :: "string list" where
  "union_schema_keys = [''anyOf'', ''oneOf'', ''allOf'']"

definition definition_keys :: "string list" where
  "definition_keys = [''$defs'', ''definitions'']"

text \<open>\<open>hasObjectType\<close>: the type is exactly \<^verbatim>\<open>"object"\<close>, or an array with an entry that
  normalises to it.\<close>

definition hasObjectType :: "(jsval \<Rightarrow> string) \<Rightarrow> jsval \<Rightarrow> bool" where
  "hasObjectType normalizeString schema =
     (getp schema ''type'' = JStr ''object'' \<or>
      list_ex (\<lambda>x. toLowerCase (normalizeString x) = ''object'') (arrayOrEmpty (getp schema ''type'')))"

text \<open>\<open>hasProps\<close>: \<^verbatim>\<open>properties\<close> is a plain object.\<close>

definition hasProps :: "jsval \<Rightarrow> bool" where
  "hasProps schema = isPlainObject (getp schema ''properties'')"

text \<open>The findings about the node itself.\<close>

definition node_issues :: "(jsval \<Rightarrow> string) \<Rightarrow> jsval \<Rightarrow> string \<Rightarrow> string list" where
  "node_issues normalizeString schema path =
     (if hasObjectType normalizeString schema \<or> hasProps schema then
        (if getp schema ''additionalProperties'' \<noteq> JBool False
         then [root_or path @ '': additionalProperties must be false''] else []) @
        (if \<not> isArray (getp schema ''required'')
         then [root_or path @ '': required must be array'']
         else if hasProps schema then
           concat (map (\<lambda>k. if JStr k \<notin> set (arrayOrEmpty (getp schema ''required''))
                            then [root_or path @ '': required missing '' @ [CHR 0x27] @ k @ [CHR 0x27]]
                            else [])
                     (obj_keys (getp schema ''properties'')))
         else [])
      else [])"

function validateOpenAiStrictJsonSchema ::
  "(jsval \<Rightarrow> string) \<Rightarrow> jsval \<Rightarrow> string \<Rightarrow> nat \<Rightarrow> string list" where
  "validateOpenAiStrictJsonSchema normalizeString schema path d =
     (if d > 50 then []
      else if \<not> truthy schema then []
      else if isArray schema then
        concat (map (\<lambda>ix. validateOpenAiStrictJsonSchema normalizeString (snd ix)
                             (path @ ''['' @ decimal (fst ix) @ '']'') (d + 1))
                  (enumerate 0 (arrayOrEmpty schema)))
      else if \<not> isPlainObject schema then []
      else
        node_issues normalizeString schema path @
        (if hasProps schema then
           concat (map (\<lambda>k. validateOpenAiStrictJsonSchema normalizeString
                               (getp (getp schema ''properties'') k)
                               (sub_path path (''properties.'' @ k)) (d + 1))
                     (obj_keys (getp schema ''properties'')))
         else []) @
        concat (map (\<lambda>key. if getp schema key \<noteq> JNull \<and> getp schema key \<noteq> JUndefined
                            then validateOpenAiStrictJsonSchema normalizeString (getp schema key)
                                   (sub_path path key) (d + 1)
                            else [])
                  single_schema_keys) @
        concat (map (\<lambda>key. if isArray (getp schema key)
                            then validateOpenAiStrictJsonSchema normalizeString (getp schema key)
                                   (sub_path path key) (d + 1)
                            else [])
                  union_schema_keys) @
        concat (map (\<lambda>key. if isPlainObject (getp schema key)
                            then concat (map (\<lambda>k. validateOpenAiStrictJsonSchema normalizeString
                                                       (getp (getp schema key) k)
                                                       (sub_path path (key @ ''.'' @ k)) (d + 1))
                                           (obj_keys (getp schema key)))
                            else [])
                  definition_keys))"
  by pat_completeness auto
termination
  by (relation "measure (\<lambda>(normalizeString, schema, path, d). 51 - d)") auto

declare validateOpenAiStrictJsonSchema.simps [simp del]

text \<open>The returned \<^verbatim>\<open>{ ok, issues }\<close> of \<^verbatim>\<open>validateConvertedToolsForProvider\<close>.\<close>

record validation =
  v_ok :: bool
  v_issues :: "string list"

text \<open>The loop over the converted tools, with its \<^verbatim>\<open>break\<close> at 30 issues.\<close>

fun validate_tools :: "(jsval \<Rightarrow> string) \<Rightarrow> jsval list \<Rightarrow> string list \<Rightarrow> string list" where
  "validate_tools normalizeString [] issues = issues"
| "validate_tools normalizeString (tool # tools) issues =
     (let name = (if normalizeString (getp tool ''name'') \<noteq> []
                  then normalizeString (getp tool ''name'')
                  else normalizeString (getp (getp tool ''function'') ''name''));
          params = js_nullish (getp tool ''parameters'') (getp (getp tool ''function'') ''parameters'');
          toolIssues = validateOpenAiStrictJsonSchema normalizeString params [] 0;
          issues' = (case toolIssues of
                       [] \<Rightarrow> issues
                     | i # _ \<Rightarrow>
                         issues @ [(if name \<noteq> [] then name else ''(unknown tool)'') @ '': '' @ i])
      in if length issues' \<ge> 30 then issues'
         else validate_tools normalizeString tools issues')"

definition validateConvertedToolsForProvider ::
  "(jsval \<Rightarrow> string) \<Rightarrow> jsval \<Rightarrow> jsval \<Rightarrow> validation" where
  "validateConvertedToolsForProvider normalizeString providerType convertedTools =
     (if normalizeString providerType \<noteq> ''openai_responses'' then \<lparr> v_ok = True, v_issues = [] \<rparr>
      else
        let issues = validate_tools normalizeString (arrayOrEmpty convertedTools) []
        in \<lparr> v_ok = (issues = []), v_issues = issues \<rparr>)"


section \<open>The self-test\<close>




text \<open>The helpers that belong to modules outside the sources at hand: the string
  coercion, the text-to-number conversion, the name comparison, the schema of a tool
  definition, two protocol constants and the four tool converters (\<open>Inl\<close>: the
  converter throws).\<close>

record st_deps =
  s_normalizeString :: "jsval \<Rightarrow> string"
  s_numOfText :: "jsval \<Rightarrow> rat option"
  s_localeCompare :: "string \<Rightarrow> string \<Rightarrow> int"
  s_resolveToolSchema :: "jsval \<Rightarrow> jsval"
  s_RESPONSE_NODE_TOOL_USE :: rat
  s_STOP_REASON_TOOL_USE_REQUESTED :: jsval
  s_convertOpenAiTools :: "jsval \<Rightarrow> string + jsval"
  s_convertAnthropicTools :: "jsval \<Rightarrow> string + jsval"
  s_convertGeminiTools :: "jsval \<Rightarrow> string + jsval"
  s_convertOpenAiResponsesTools :: "jsval \<Rightarrow> string + jsval"


subsection \<open>One provider\<close>















subsection \<open>The whole run\<close>





text \<open>\<^verbatim>\<open>v?.[0]\<close>.\<close>

fun index0 :: "jsval \<Rightarrow> jsval" where
  "index0 (JArr (x # xs)) = x"
| "index0 (JStr (c # cs)) = JStr [c]"
| "index0 (JObj kvs) = getp (JObj kvs) ''0''"
| "index0 v = JUndefined"

text \<open>The definitions used by \<^verbatim>\<open>selfTestOpenAiResponsesStrictSchema\<close>.\<close>

definition strict_selftest_defs :: jsval where
  "strict_selftest_defs =
     JArr [JObj [(''name'', JStr ''schema_self_test''),
                 (''input_schema'',
                    JObj [(''type'', JStr ''object''),
                          (''properties'', JObj [(''a'', JObj [(''type'', JStr ''string'')]),
                                                 (''insert_line_1'', JObj [(''type'', JStr ''integer'')])]),
                          (''required'', JArr [JStr ''a''])])]]"

text \<open>\<^verbatim>\<open>selfTestOpenAiResponsesStrictSchema\<close> on the converted tools: the truth value of
  its result.\<close>

definition strict_selftest_ok :: "jsval \<Rightarrow> bool" where
  "strict_selftest_ok tools =
     (let p0 = getp (index0 tools) ''parameters'';
          props = (if isObjectLike p0 \<and> isObjectLike (getp p0 ''properties'')
                   then map fst (spread (getp p0 ''properties'')) else []);
          req = arrayOrEmpty (getp p0 ''required'');
          missing = filter (\<lambda>k. JStr k \<notin> set req) props
      in truthy p0 \<and> getp p0 ''additionalProperties'' = JBool False \<and>
         isArray (getp p0 ''required'') \<and> missing = [])"

text \<open>The outcome of the strict-schema check of the captured tools under
  \<^verbatim>\<open>withTimed\<close>: convert to the responses dialect, validate, throw on an invalid
  result.\<close>

definition strict_captured_ok :: "st_deps \<Rightarrow> jsval \<Rightarrow> bool" where
  "strict_captured_ok deps toolDefs =
     (case s_convertOpenAiResponsesTools deps toolDefs of
        Inl err \<Rightarrow> False
      | Inr tools \<Rightarrow>
          v_ok (validateConvertedToolsForProvider (s_normalizeString deps)
                  (JStr ''openai_responses'') tools))"







subsection \<open>Reading a report\<close>
















section \<open>The conversion to the OpenAI-responses dialect\<close>

text \<open>
  The converters and the strict-mode coercion live in the chat modules, which are not
  part of the sources at hand; the sources only call them and validate their result.
  The two definitions below are therefore written from the specification.
\<close>

text \<open>The keys under which the specification places subschemas: a schema or an array
  of schemas, and maps from names to schemas.\<close>

definition schema_keys :: "string list" where
  "schema_keys = single_schema_keys @ union_schema_keys"

definition schema_map_keys :: "string list" where
  "schema_map_keys = ''properties'' # definition_keys"

text \<open>Closing an object node: \<^verbatim>\<open>additionalProperties\<close> becomes \<^verbatim>\<open>false\<close> and \<^verbatim>\<open>required\<close>
  lists every declared property key.\<close>

definition close_object :: "(jsval \<Rightarrow> string) \<Rightarrow> (string \<times> jsval) list \<Rightarrow> jsval" where
  "close_object normalizeString kvs =
     (if hasObjectType normalizeString (JObj kvs) \<or> hasProps (JObj kvs)
      then JObj (obj_set (obj_set kvs ''additionalProperties'' (JBool False)) ''required''
                   (JArr (map JStr (obj_keys (getp (JObj kvs) ''properties'')))))
      else JObj kvs)"

text \<open>
  Modelled from the spec: \<open>coerceOpenAiStrictJsonSchema\<close>, the strict-mode coercion of the
  normaliser, is missing from the sources. The specification asks that every
  object-typed (sub)schema sets \<^verbatim>\<open>additionalProperties:false\<close> and lists every declared
  property key in \<^verbatim>\<open>required\<close>, and that the normaliser rewrites schemas to satisfy
  this, over object/has-properties nodes, \<^verbatim>\<open>items\<close>/\<^verbatim>\<open>prefixItems\<close>,
  \<^verbatim>\<open>not/if/then/else\<close>, \<^verbatim>\<open>anyOf/oneOf/allOf\<close> and \<^verbatim>\<open>$defs/definitions\<close>, recursively. The
  flag says whether the value is read as a schema (\<open>True\<close>) or as a map from names to
  schemas (\<open>False\<close>).
\<close>

fun coerceOpenAiStrictJsonSchema :: "(jsval \<Rightarrow> string) \<Rightarrow> bool \<Rightarrow> jsval \<Rightarrow> jsval" where
  "coerceOpenAiStrictJsonSchema normalizeString asSchema (JArr xs) =
     (if asSchema then JArr (map (coerceOpenAiStrictJsonSchema normalizeString True) xs)
      else JArr xs)"
| "coerceOpenAiStrictJsonSchema normalizeString asSchema (JObj kvs) =
     (if asSchema then
        close_object normalizeString
          (map (\<lambda>kv. (fst kv,
                        if fst kv \<in> set schema_keys
                        then coerceOpenAiStrictJsonSchema normalizeString True (snd kv)
                        else if fst kv \<in> set schema_map_keys
                        then coerceOpenAiStrictJsonSchema normalizeString False (snd kv)
                        else snd kv)) kvs)
      else JObj (map (\<lambda>kv. (fst kv, coerceOpenAiStrictJsonSchema normalizeString True (snd kv))) kvs))"
| "coerceOpenAiStrictJsonSchema normalizeString asSchema v = v"

text \<open>
  Modelled from the spec: \<open>convertOpenAiResponsesTools\<close> is missing from the sources. The
  specification gives the tools of the responses dialect as function tools with a
  name, a description and the parameters, the schema being rewritten for strict
  mode, over the tool definitions de-duplicated by name; the self-test of the sources
  reads the schema at \<^verbatim>\<open>tools[0].parameters\<close>. The schema of a definition is what
  \<open>resolveToolSchema\<close> (a parameter) returns.
\<close>

definition convertOpenAiResponsesTools ::
  "(jsval \<Rightarrow> string) \<Rightarrow> (jsval \<Rightarrow> jsval) \<Rightarrow> jsval \<Rightarrow> jsval" where
  "convertOpenAiResponsesTools normalizeString resolveToolSchema toolDefs =
     JArr (map (\<lambda>d. JObj [(''type'', JStr ''function''),
                          (''name'', JStr (tool_name normalizeString d)),
                          (''description'', JStr (normalizeString (getp d ''description''))),
                          (''parameters'',
                             coerceOpenAiStrictJsonSchema normalizeString True (resolveToolSchema d)),
                          (''strict'', JBool True)])
            (dedupeToolDefsByName normalizeString toolDefs))"

subsection \<open>Strict mode, as the specification words it\<close>

text \<open>A schema node is closed when, being object-typed or having properties, it sets
  \<^verbatim>\<open>additionalProperties\<close> to \<^verbatim>\<open>false\<close> and its \<^verbatim>\<open>required\<close> array lists every declared
  property key.\<close>

definition node_closed :: "(jsval \<Rightarrow> string) \<Rightarrow> jsval \<Rightarrow> bool" where
  "node_closed normalizeString s \<longleftrightarrow>
     (hasObjectType normalizeString s \<or> hasProps s \<longrightarrow>
        getp s ''additionalProperties'' = JBool False \<and>
        isArray (getp s ''required'') \<and>
        list_all (\<lambda>k. JStr k \<in> set (arrayOrEmpty (getp s ''required'')))
          (obj_keys (getp s ''properties'')))"

text \<open>Every node of a schema is closed, at any depth: the flag is the one of the
  coercion (a schema, or a map from names to schemas).\<close>

fun strict_schema :: "(jsval \<Rightarrow> string) \<Rightarrow> bool \<Rightarrow> jsval \<Rightarrow> bool" where
  "strict_schema normalizeString asSchema (JArr xs) =
     (if asSchema then list_all (strict_schema normalizeString True) xs else True)"
| "strict_schema normalizeString asSchema (JObj kvs) =
     (if asSchema then
        node_closed normalizeString (JObj kvs) \<and>
        list_all (\<lambda>kv. if fst kv \<in> set schema_keys
                       then strict_schema normalizeString True (snd kv)
                       else if fst kv \<in> set schema_map_keys
                       then strict_schema normalizeString False (snd kv)
                       else True) kvs
      else list_all (\<lambda>kv. strict_schema normalizeString True (snd kv)) kvs)"
| "strict_schema normalizeString asSchema v = True"

text \<open>The validator has nothing to report on a value, wherever it starts.\<close>

definition clean :: "(jsval \<Rightarrow> string) \<Rightarrow> jsval \<Rightarrow> bool" where
  "clean normalizeString v \<longleftrightarrow>
     (\<forall>path d. validateOpenAiStrictJsonSchema normalizeString v path d = [])"

text \<open>A tool definition with nested object schemas, none of them closed.\<close>

definition nested_def :: jsval where
  "nested_def =
     JObj [(''name'', JStr ''edit''),
           (''input_schema'',
              JObj [(''type'', JStr ''object''),
                    (''properties'',
                       JObj [(''path'', JObj [(''type'', JStr ''string'')]),
                             (''range'', JObj [(''properties'', JObj [(''from'', JObj [(''type'', JStr ''integer'')])])]),
                             (''edits'', JObj [(''type'', JStr ''array''),
                                               (''items'', JObj [(''type'', JArr [JStr ''object'', JStr ''null''])])])]),
                    (''required'', JArr [JStr ''path''])])]"


section \<open>Facts about objects\<close>

lemma map_of_obj_set: "map_of (obj_set kvs k v) k' = (if k' = k then Some v else map_of kvs k')"
  by (induction kvs k v rule: obj_set.induct) auto


lemma getp_obj_set: "getp (JObj (obj_set kvs k v)) k' = (if k' = k then v else getp (JObj kvs) k')"
  by (simp add: map_of_obj_set)



section \<open>Properties of the stream collector\<close>

lemma collect_step_sel:
  "out_chunks (collect_step ch acc) = out_chunks acc @ [ch]"
  "out_nodes (collect_step ch acc) = out_nodes acc @ chunk_nodes ch"
  "out_text (collect_step ch acc) = out_text acc @ chunk_text ch"
  "out_stop_reason (collect_step ch acc) =
     (if chunk_has_stop ch then getp ch ''stop_reason'' else out_stop_reason acc)"
  by (simp_all add: collect_step_def)

lemma collect_loop_take:
  "collect_loop m gen acc =
     foldl (\<lambda>a c. collect_step c a) acc (take (m - length (out_chunks acc)) gen)"
proof (induction gen arbitrary: acc)
  case Nil
  show ?case by simp
next
  case (Cons ch gen)
  show ?case
  proof (cases "length (out_chunks acc) \<ge> m")
    case True
    then show ?thesis by simp
  next
    case False
    then obtain k where k: "m - length (out_chunks acc) = Suc k"
      by (metis Suc_diff_Suc not_le)
    have "m - length (out_chunks (collect_step ch acc)) = k"
      using k by (simp add: collect_step_sel)
    with False k Cons.IH [of "collect_step ch acc"] show ?thesis by simp
  qed
qed

lemma foldl_collect_chunks:
  "out_chunks (foldl (\<lambda>a c. collect_step c a) acc gen) = out_chunks acc @ gen"
  by (induction gen arbitrary: acc) (simp_all add: collect_step_sel)

lemma foldl_collect_text:
  "out_text (foldl (\<lambda>a c. collect_step c a) acc gen) = out_text acc @ concat (map chunk_text gen)"
  by (induction gen arbitrary: acc) (simp_all add: collect_step_sel)

lemma foldl_collect_nodes:
  "out_nodes (foldl (\<lambda>a c. collect_step c a) acc gen) = out_nodes acc @ concat (map chunk_nodes gen)"
  by (induction gen arbitrary: acc) (simp_all add: collect_step_sel)

lemma foldl_collect_stop:
  "out_stop_reason (foldl (\<lambda>a c. collect_step c a) acc gen) =
     (case filter chunk_has_stop gen of
        [] \<Rightarrow> out_stop_reason acc
      | c # cs \<Rightarrow> getp (last (c # cs)) ''stop_reason'')"
proof (induction gen arbitrary: acc)
  case Nil
  show ?case by simp
next
  case (Cons ch gen)
  show ?case
    by (simp add: Cons.IH collect_step_sel split: list.splits)
qed

text \<open>
  C7 (as amended). For every finished chunk sequence and every cap \<open>maxChunks\<close>, the
  collector keeps the first \<open>maxChunks\<close> chunks only: the returned text is the
  concatenation, in yield order, of the text deltas of those chunks, the returned
  nodes are the flat concatenation of their node lists, and the returned stop reason
  is the one of the last kept chunk that carries a \<^verbatim>\<open>stop_reason\<close> key
  (\<^verbatim>\<open>null\<close> when none does). For a sequence of at most \<open>maxChunks\<close> chunks
  (500 by default) \<open>take maxChunks gen\<close> is the whole sequence.
\<close>

theorem collectChatStream_capped:
  "out_chunks (collectChatStream maxChunks gen) = take maxChunks gen \<and>
   out_text (collectChatStream maxChunks gen) = concat (map chunk_text (take maxChunks gen)) \<and>
   out_nodes (collectChatStream maxChunks gen) = concat (map chunk_nodes (take maxChunks gen)) \<and>
   out_stop_reason (collectChatStream maxChunks gen) = final_stop (take maxChunks gen)"
  by (simp add: collectChatStream_def collect_loop_take collect_init_def foldl_collect_chunks
      foldl_collect_text foldl_collect_nodes foldl_collect_stop final_stop_def
      split: list.splits)

lemma long_stream_text: "concat (map chunk_text long_stream) = replicate 500 (CHR ''a'') @ ''b''"
proof -
  have "concat (map chunk_text (replicate n (JObj [(''text'', JStr ''a'')]))) = replicate n (CHR ''a'')" for n
    by (induction n) (simp_all add: chunk_text_def)
  then show ?thesis by (simp add: long_stream_def chunk_text_def)
qed

text \<open>
  C7 (as stated) fails beyond the cap: on a stream of 500 text deltas followed by a
  terminal chunk, the default collector returns neither the whole text nor the
  terminal stop reason.
\<close>

theorem collectChatStream_cap_counterexample:
  "out_text (collectChatStream_default long_stream) \<noteq> concat (map chunk_text long_stream) \<and>
   out_stop_reason (collectChatStream_default long_stream) = JNull \<and>
   final_stop long_stream = JNum 1"
proof -
  have t: "take 500 long_stream = replicate 500 (JObj [(''text'', JStr ''a'')])"
    by (simp add: long_stream_def)
  have l: "length (out_text (collectChatStream_default long_stream)) \<le> 500"
  proof -
    have "concat (map chunk_text (replicate n (JObj [(''text'', JStr ''a'')]))) = replicate n (CHR ''a'')" for n
      by (induction n) (simp_all add: chunk_text_def)
    then show ?thesis
      by (simp add: collectChatStream_default_def collectChatStream_def collect_loop_take
          collect_init_def foldl_collect_text t)
  qed
  have r: "length (concat (map chunk_text long_stream)) = 501"
    by (simp add: long_stream_text)
  have s: "out_stop_reason (collectChatStream_default long_stream) = JNull"
    by (simp add: collectChatStream_default_def collectChatStream_def collect_loop_take
        collect_init_def foldl_collect_stop t chunk_has_stop_def)
  have f: "final_stop long_stream = JNum 1"
    by (simp add: final_stop_def long_stream_def chunk_has_stop_def)
  from l r s f show ?thesis by auto
qed


section \<open>The sampler on the round-trip example\<close>

text \<open>
  C8. On the schema \<^verbatim>\<open>{type:"object", required:["a","b"], properties:{a:{type:"string"},
  b:{type:"integer"}}}\<close> the sampler returns the object \<^verbatim>\<open>{a:"x", b:1}\<close>: field \<open>a\<close> is
  a string, field \<open>b\<close> the integer 1, and the value is a JSON tree, which
  \<^verbatim>\<open>JSON.stringify\<close> renders. This holds for every string coercion that leaves the
  five words of the schema as they are, and every text-to-number conversion.
\<close>

theorem sampleJsonFromSchema_ab:
  assumes N: "\<forall>t \<in> set [''object'', ''string'', ''integer'', ''a'', ''b'']. N (JStr t) = t"
  shows "sampleJsonFromSchema N c ab_schema 0 = JObj [(''a'', JStr ''x''), (''b'', JNum 1)] \<and>
         is_json_value (sampleJsonFromSchema N c ab_schema 0)"
proof -
  have n: "N (JStr ''object'') = ''object''" "N (JStr ''string'') = ''string''"
    "N (JStr ''integer'') = ''integer''" "N (JStr ''a'') = ''a''" "N (JStr ''b'') = ''b''"
    using N by simp_all
  have a: "sampleJsonFromSchema N c (JObj [(''type'', JStr ''string'')]) (Suc 0) = JStr ''x''"
    by (subst sampleJsonFromSchema.simps)
       (simp add: n js_or_def schema_types_def toLowerCase_def lower_char_def sample_scalar_def
          positive_floor_def)
  have b: "sampleJsonFromSchema N c (JObj [(''type'', JStr ''integer'')]) (Suc 0) = JNum 1"
    by (subst sampleJsonFromSchema.simps)
       (simp add: n js_or_def schema_types_def toLowerCase_def lower_char_def sample_scalar_def)
  have r: "sampleJsonFromSchema N c ab_schema 0 = JObj [(''a'', JStr ''x''), (''b'', JNum 1)]"
    unfolding ab_schema_def
    by (subst sampleJsonFromSchema.simps)
       (simp add: n a b js_or_def schema_types_def toLowerCase_def lower_char_def chosen_keys_def
          required_names_def)
  show ?thesis
    unfolding r by simp
qed

text \<open>C8 with the trimming coercion.\<close>

theorem sampleJsonFromSchema_ab_witness:
  "sampleJsonFromSchema normalizeString_trim no_text_number ab_schema 0 =
     JObj [(''a'', JStr ''x''), (''b'', JNum 1)] \<and>
   is_json_value (sampleJsonFromSchema normalizeString_trim no_text_number ab_schema 0)"
proof -
  have "\<forall>t \<in> set [''object'', ''string'', ''integer'', ''a'', ''b'']. normalizeString_trim (JStr t) = t"
    by (simp add: normalizeString_trim_def trim_def is_space_def)
  then show ?thesis
    by (rule sampleJsonFromSchema_ab)
qed



section \<open>Properties of the de-duplication\<close>








section \<open>Properties of the real-tool round-trip probe\<close>










section \<open>Consumers of the de-duplicated tool definitions\<close>













section \<open>Properties of the model discovery\<close>










section \<open>The runtime switch\<close>





section \<open>Properties of the model merge\<close>








section \<open>Properties of the self-test\<close>


















lemma nth_pre: "i < length xs \<Longrightarrow> (xs @ ys) ! i = xs ! i"
  by (simp add: nth_append)

















section \<open>Strict mode of the converted tools\<close>

lemma clean_falsy: "\<not> truthy v \<Longrightarrow> clean N v"
  unfolding clean_def by (subst validateOpenAiStrictJsonSchema.simps) simp

lemma clean_undefined: "clean N JUndefined"
  by (simp add: clean_falsy)

lemma clean_scalar: "\<not> isArray v \<Longrightarrow> \<not> isPlainObject v \<Longrightarrow> clean N v"
  unfolding clean_def by (subst validateOpenAiStrictJsonSchema.simps) simp

lemma clean_array:
  assumes "\<And>x. x \<in> set xs \<Longrightarrow> clean N x"
  shows "clean N (JArr xs)"
proof -
  have "validateOpenAiStrictJsonSchema N (snd ix) p d = []"
    if "ix \<in> set (enumerate 0 xs)" for ix p d
  proof -
    from that have "snd ix \<in> set (map snd (enumerate 0 xs))"
      by (simp only: set_map) (rule imageI)
    then have "snd ix \<in> set xs"
      by (simp only: map_snd_enumerate)
    with assms show ?thesis by (simp add: clean_def)
  qed
  then show ?thesis
    unfolding clean_def by (subst validateOpenAiStrictJsonSchema.simps) simp
qed

lemma concat_map_Nil: "(\<And>x. x \<in> set xs \<Longrightarrow> f x = []) \<Longrightarrow> concat (map f xs) = []"
  by (induction xs) auto

lemma clean_object:
  assumes node: "\<And>path. node_issues N (JObj kvs) path = []"
    and props: "\<And>k. clean N (getp (getp (JObj kvs) ''properties'') k)"
    and singles: "\<And>key. key \<in> set single_schema_keys \<Longrightarrow> clean N (getp (JObj kvs) key)"
    and unions: "\<And>key. key \<in> set union_schema_keys \<Longrightarrow> clean N (getp (JObj kvs) key)"
    and maps: "\<And>key k. key \<in> set definition_keys \<Longrightarrow> clean N (getp (getp (JObj kvs) key) k)"
  shows "clean N (JObj kvs)"
proof -
  let ?s = "JObj kvs"
  have c1: "concat (map (\<lambda>k. validateOpenAiStrictJsonSchema N (getp (getp ?s ''properties'') k)
                   (sub_path p (''properties.'' @ k)) (d + 1)) ks) = []" for p d ks
    using props by (intro concat_map_Nil) (simp add: clean_def)
  have c2: "concat (map (\<lambda>key. if getp ?s key \<noteq> JNull \<and> getp ?s key \<noteq> JUndefined
                            then validateOpenAiStrictJsonSchema N (getp ?s key)
                                   (sub_path p key) (d + 1)
                            else []) single_schema_keys) = []" for p d
    using singles by (intro concat_map_Nil) (simp add: clean_def)
  have c3: "concat (map (\<lambda>key. if isArray (getp ?s key)
                            then validateOpenAiStrictJsonSchema N (getp ?s key)
                                   (sub_path p key) (d + 1)
                            else []) union_schema_keys) = []" for p d
    using unions by (intro concat_map_Nil) (simp add: clean_def)
  have c4: "concat (map (\<lambda>key. if isPlainObject (getp ?s key)
                            then concat (map (\<lambda>k. validateOpenAiStrictJsonSchema N
                                                       (getp (getp ?s key) k)
                                                       (sub_path p (key @ ''.'' @ k)) (d + 1))
                                           (obj_keys (getp ?s key)))
                            else []) definition_keys) = []" for p d
  proof (intro concat_map_Nil)
    fix key assume "key \<in> set definition_keys"
    from maps [OF this] have "concat (map (\<lambda>k. validateOpenAiStrictJsonSchema N
                                                       (getp (getp ?s key) k)
                                                       (sub_path p (key @ ''.'' @ k)) (d + 1))
                                           (obj_keys (getp ?s key))) = []"
      by (intro concat_map_Nil) (simp add: clean_def)
    then show "(if isPlainObject (getp ?s key)
                then concat (map (\<lambda>k. validateOpenAiStrictJsonSchema N (getp (getp ?s key) k)
                                       (sub_path p (key @ ''.'' @ k)) (d + 1))
                               (obj_keys (getp ?s key)))
                else []) = []"
      by simp
  qed
  show ?thesis
    unfolding clean_def
  proof (intro allI)
    fix path d
    show "validateOpenAiStrictJsonSchema N ?s path d = []"
      by (subst validateOpenAiStrictJsonSchema.simps)
         (simp only: node c1 c2 c3 c4 append_Nil if_cancel truthy.simps isArray.simps
            isPlainObject.simps not_True_eq_False not_False_eq_True if_True if_False)
  qed
qed

lemma getp_mapped:
  "getp (JObj (map (\<lambda>kv. (fst kv, f kv)) kvs)) key =
     (case map_of kvs key of None \<Rightarrow> JUndefined | Some v \<Rightarrow> f (key, v))"
  by (induction kvs) auto

lemma close_object_getp:
  "key \<noteq> ''required'' \<Longrightarrow> key \<noteq> ''additionalProperties'' \<Longrightarrow>
   \<exists>kvs'. close_object N kvs = JObj kvs' \<and> getp (JObj kvs') key = getp (JObj kvs) key"
  by (simp add: close_object_def getp_obj_set del: getp.simps)

lemma close_object_node:
  "\<exists>kvs'. close_object N kvs = JObj kvs' \<and> (\<forall>path. node_issues N (JObj kvs') path = []) \<and>
          (\<forall>key. key \<noteq> ''required'' \<longrightarrow> key \<noteq> ''additionalProperties'' \<longrightarrow>
                 getp (JObj kvs') key = getp (JObj kvs) key)"
proof (cases "hasObjectType N (JObj kvs) \<or> hasProps (JObj kvs)")
  case False
  then show ?thesis
    by (simp add: close_object_def node_issues_def del: getp.simps)
next
  case True
  let ?kvs' = "obj_set (obj_set kvs ''additionalProperties'' (JBool False)) ''required''
                 (JArr (map JStr (obj_keys (getp (JObj kvs) ''properties''))))"
  have g: "getp (JObj ?kvs') key = getp (JObj kvs) key"
    if "key \<noteq> ''required''" "key \<noteq> ''additionalProperties''" for key
    using that by (simp add: getp_obj_set del: getp.simps)
  have a: "getp (JObj ?kvs') ''additionalProperties'' = JBool False"
    by (simp add: getp_obj_set del: getp.simps)
  have r: "getp (JObj ?kvs') ''required'' = JArr (map JStr (obj_keys (getp (JObj kvs) ''properties'')))"
    by (simp add: getp_obj_set del: getp.simps)
  have p: "getp (JObj ?kvs') ''properties'' = getp (JObj kvs) ''properties''"
    by (rule g) simp_all
  have "node_issues N (JObj ?kvs') path = []" for path
    unfolding node_issues_def hasProps_def a r p by simp
  with True g show ?thesis
    by (simp add: close_object_def del: getp.simps)
qed


lemma getp_undefined: "getp JUndefined k = JUndefined"
  by simp

lemma key_facts:
  "''properties'' \<notin> set schema_keys" "''properties'' \<in> set schema_map_keys"
  "''properties'' \<noteq> ''required''" "''properties'' \<noteq> ''additionalProperties''"
  "''required'' \<notin> set schema_keys" "''additionalProperties'' \<notin> set schema_keys"
  "''required'' \<notin> set definition_keys" "''additionalProperties'' \<notin> set definition_keys"
  "set definition_keys \<inter> set schema_keys = {}"
  by (simp_all add: schema_keys_def schema_map_keys_def single_schema_keys_def
      union_schema_keys_def definition_keys_def)

lemma coerce_clean:
  "clean N (coerceOpenAiStrictJsonSchema N True v) \<and>
   (\<forall>k. clean N (getp (coerceOpenAiStrictJsonSchema N False v) k))"
proof (induction v)
  case (JArr xs)
  have "clean N (JArr (map (coerceOpenAiStrictJsonSchema N True) xs))"
    using JArr by (intro clean_array) auto
  then show ?case by (simp add: clean_undefined)
next
  case (JObj kvs)
  let ?c = "coerceOpenAiStrictJsonSchema N"
  have ih1: "clean N (?c True v)" and ih2: "clean N (getp (?c False v) k)"
    if "map_of kvs key = Some v" for key v k
  proof -
    from that have "(key, v) \<in> set kvs" by (rule map_of_SomeD)
    then have "clean N (?c True v) \<and> (\<forall>k. clean N (getp (?c False v) k))"
      by (rule JObj.IH) simp
    then show "clean N (?c True v)" and "clean N (getp (?c False v) k)" by simp_all
  qed
  \<comment> \<open>read as a map of schemas\<close>
  have second: "clean N (getp (?c False (JObj kvs)) k)" for k
    by (cases "map_of kvs k") (simp_all add: getp_mapped clean_undefined ih1 del: getp.simps)
  \<comment> \<open>read as a schema\<close>
  let ?f = "\<lambda>kv. if fst kv \<in> set schema_keys then ?c True (snd kv)
                 else if fst kv \<in> set schema_map_keys then ?c False (snd kv) else snd kv"
  let ?kvs = "map (\<lambda>kv. (fst kv, ?f kv)) kvs"
  have g: "getp (JObj ?kvs) key =
      (case map_of kvs key of None \<Rightarrow> JUndefined | Some v \<Rightarrow> ?f (key, v))" for key
    by (rule getp_mapped)
  from close_object_node [of N ?kvs] obtain kvs' where
    co: "close_object N ?kvs = JObj kvs'"
    and node: "\<And>path. node_issues N (JObj kvs') path = []"
    and same: "\<And>key. key \<noteq> ''required'' \<Longrightarrow> key \<noteq> ''additionalProperties'' \<Longrightarrow>
                 getp (JObj kvs') key = getp (JObj ?kvs) key"
    by blast
  have sk: "clean N (getp (JObj kvs') key)" if "key \<in> set schema_keys" for key
  proof -
    from that key_facts have "key \<noteq> ''required''" "key \<noteq> ''additionalProperties''" by auto
    then have "getp (JObj kvs') key = getp (JObj ?kvs) key" by (rule same)
    with that show ?thesis
      by (cases "map_of kvs key") (simp_all add: g clean_undefined ih1 del: getp.simps)
  qed
  have mk: "clean N (getp (getp (JObj kvs') key) k)"
    if "key \<in> set schema_map_keys" "key \<notin> set schema_keys"
      "key \<noteq> ''required''" "key \<noteq> ''additionalProperties''" for key k
  proof -
    from that have "getp (JObj kvs') key = getp (JObj ?kvs) key" by (intro same)
    with that show ?thesis
      by (cases "map_of kvs key")
         (simp_all add: g clean_undefined ih2 del: getp.simps(1))
  qed
  have "clean N (JObj kvs')"
  proof (rule clean_object)
    show "node_issues N (JObj kvs') path = []" for path by (rule node)
    show "clean N (getp (getp (JObj kvs') ''properties'') k)" for k
      by (rule mk) (simp_all add: key_facts)
    show "clean N (getp (JObj kvs') key)" if "key \<in> set single_schema_keys" for key
      using that by (intro sk) (simp add: schema_keys_def)
    show "clean N (getp (JObj kvs') key)" if "key \<in> set union_schema_keys" for key
      using that by (intro sk) (simp add: schema_keys_def)
    show "clean N (getp (getp (JObj kvs') key) k)" if "key \<in> set definition_keys" for key k
    proof (rule mk)
      from that show "key \<in> set schema_map_keys" by (simp add: schema_map_keys_def)
      from that key_facts show "key \<notin> set schema_keys" by blast
      from that key_facts show "key \<noteq> ''required''" by blast
      from that key_facts show "key \<noteq> ''additionalProperties''" by blast
    qed
  qed
  then have first: "clean N (?c True (JObj kvs))"
    by (simp add: co)
  from first second show ?case by blast
qed (simp_all add: clean_scalar clean_undefined)


lemma obj_keys_not_plain: "\<not> isPlainObject v \<Longrightarrow> obj_keys v = []"
  by (cases v) simp_all

lemma node_closed_iff: "node_closed N s \<longleftrightarrow> (\<forall>path. node_issues N s path = [])"
  by (auto simp: node_closed_def node_issues_def list_all_iff hasProps_def obj_keys_not_plain)

lemma list_all_obj_set:
  "list_all g kvs \<Longrightarrow> g (k, v) \<Longrightarrow> list_all g (obj_set kvs k v)"
  by (induction kvs k v rule: obj_set.induct) auto

lemma coerce_strict:
  "strict_schema N True (coerceOpenAiStrictJsonSchema N True v) \<and>
   strict_schema N False (coerceOpenAiStrictJsonSchema N False v)"
proof (induction v)
  case (JArr xs)
  then show ?case by (simp add: list_all_iff)
next
  case (JObj kvs)
  let ?c = "coerceOpenAiStrictJsonSchema N"
  let ?g = "\<lambda>kv. if fst kv \<in> set schema_keys then strict_schema N True (snd kv)
                 else if fst kv \<in> set schema_map_keys then strict_schema N False (snd kv)
                 else True"
  let ?f = "\<lambda>kv. if fst kv \<in> set schema_keys then ?c True (snd kv)
                 else if fst kv \<in> set schema_map_keys then ?c False (snd kv) else snd kv"
  let ?kvs = "map (\<lambda>kv. (fst kv, ?f kv)) kvs"
  have ih: "strict_schema N True (?c True (snd kv)) \<and> strict_schema N False (?c False (snd kv))"
    if "kv \<in> set kvs" for kv
  proof -
    obtain k v where kv: "kv = (k, v)" by (cases kv)
    with that have "(k, v) \<in> set kvs" by simp
    then have "strict_schema N True (?c True v) \<and> strict_schema N False (?c False v)"
      by (rule JObj.IH) simp
    with kv show ?thesis by simp
  qed
  have second: "strict_schema N False (?c False (JObj kvs))"
    using ih by (simp add: list_all_iff)
  have all: "list_all ?g ?kvs"
    using ih by (simp add: list_all_iff)
  from close_object_node [of N ?kvs] obtain kvs' where
    co: "close_object N ?kvs = JObj kvs'"
    and node: "\<And>path. node_issues N (JObj kvs') path = []"
    by blast
  have g_ap: "?g (''additionalProperties'', x)" and g_req: "?g (''required'', x)" for x
    by (simp_all add: schema_keys_def schema_map_keys_def single_schema_keys_def
        union_schema_keys_def definition_keys_def)
  have "list_all ?g kvs'"
  proof (cases "hasObjectType N (JObj ?kvs) \<or> hasProps (JObj ?kvs)")
    case True
    with co have "kvs' = obj_set (obj_set ?kvs ''additionalProperties'' (JBool False)) ''required''
                   (JArr (map JStr (obj_keys (getp (JObj ?kvs) ''properties''))))"
      by (simp add: close_object_def del: getp.simps)
    then show ?thesis
      using all g_ap g_req by (simp only:) (intro list_all_obj_set)
  next
    case False
    with co have "kvs' = ?kvs" by (simp add: close_object_def)
    with all show ?thesis by simp
  qed
  moreover from node have "node_closed N (JObj kvs')"
    by (simp add: node_closed_iff)
  ultimately have "strict_schema N True (?c True (JObj kvs))"
    by (simp add: co)
  with second show ?case by blast
qed simp_all

lemma convert_tool_params:
  assumes "tool \<in> set (arrayOrEmpty (convertOpenAiResponsesTools N rs toolDefs))"
  shows "\<exists>v. getp tool ''parameters'' = coerceOpenAiStrictJsonSchema N True v \<and>
             getp tool ''function'' = JUndefined"
  using assms by (auto simp: convertOpenAiResponsesTools_def)

lemma validate_tools_clean:
  assumes "\<And>tool. tool \<in> set tools \<Longrightarrow>
             clean N (js_nullish (getp tool ''parameters'') (getp (getp tool ''function'') ''parameters''))"
  shows "validate_tools N tools [] = []"
  using assms by (induction tools) (simp_all add: Let_def clean_def)


text \<open>
  C1. For every list of tool definitions, every string coercion and every reading of
  a definition's schema, the validator of the sources reports no issue on the tools
  converted to the responses dialect, and in the parameters of every converted tool
  every object-typed or has-properties node, at any depth, sets
  \<^verbatim>\<open>additionalProperties\<close> to \<^verbatim>\<open>false\<close> and lists every declared property key in
  \<^verbatim>\<open>required\<close>. Run with this converter, the strict-schema check of the captured
  tools in the self-test passes.
\<close>

theorem convertOpenAiResponsesTools_strict:
  "v_ok (validateConvertedToolsForProvider N (JStr ''openai_responses'')
           (convertOpenAiResponsesTools N rs toolDefs)) \<and>
   v_issues (validateConvertedToolsForProvider N (JStr ''openai_responses'')
           (convertOpenAiResponsesTools N rs toolDefs)) = [] \<and>
   (\<forall>tool \<in> set (arrayOrEmpty (convertOpenAiResponsesTools N rs toolDefs)).
      strict_schema N True (getp tool ''parameters'') \<and>
      (\<forall>path d. validateOpenAiStrictJsonSchema N (getp tool ''parameters'') path d = [])) \<and>
   (s_normalizeString deps = N \<and>
    s_convertOpenAiResponsesTools deps toolDefs = Inr (convertOpenAiResponsesTools N rs toolDefs)
      \<longrightarrow> strict_captured_ok deps toolDefs)"
proof -
  let ?tools = "arrayOrEmpty (convertOpenAiResponsesTools N rs toolDefs)"
  have each: "strict_schema N True (getp tool ''parameters'') \<and> clean N (getp tool ''parameters'')"
    and nullish: "clean N (js_nullish (getp tool ''parameters'') (getp (getp tool ''function'') ''parameters''))"
    if "tool \<in> set ?tools" for tool
  proof -
    from convert_tool_params [OF that] obtain v where
      v: "getp tool ''parameters'' = coerceOpenAiStrictJsonSchema N True v"
        "getp tool ''function'' = JUndefined"
      by blast
    from v coerce_strict [of N v] coerce_clean [of N v]
    show "strict_schema N True (getp tool ''parameters'') \<and> clean N (getp tool ''parameters'')"
      by simp
    then show "clean N (js_nullish (getp tool ''parameters'') (getp (getp tool ''function'') ''parameters''))"
      using v by (simp add: js_nullish_def clean_undefined)
  qed
  have "validate_tools N ?tools [] = []"
    using nullish by (rule validate_tools_clean)
  then have "v_ok (validateConvertedToolsForProvider N (JStr ''openai_responses'')
           (convertOpenAiResponsesTools N rs toolDefs))"
    and "v_issues (validateConvertedToolsForProvider N (JStr ''openai_responses'')
           (convertOpenAiResponsesTools N rs toolDefs)) = []"
    by (simp_all add: validateConvertedToolsForProvider_def Let_def)
  with each show ?thesis
    by (simp add: clean_def strict_captured_ok_def)
qed

text \<open>C1 on a definition with nested, open object schemas: the validator finds
  issues in the schema as given and none after the conversion; and the built-in
  check of the self-test passes on the converted built-in definitions.\<close>

theorem convertOpenAiResponsesTools_strict_witness:
  "strict_selftest_ok (convertOpenAiResponsesTools normalizeString_trim cx_schema strict_selftest_defs) \<and>
   arrayOrEmpty (convertOpenAiResponsesTools normalizeString_trim cx_schema (JArr [nested_def])) \<noteq> [] \<and>
   validateOpenAiStrictJsonSchema normalizeString_trim (cx_schema nested_def) [] 0 \<noteq> [] \<and>
   list_all (\<lambda>tool. strict_schema normalizeString_trim True (getp tool ''parameters'') \<and>
                    validateOpenAiStrictJsonSchema normalizeString_trim (getp tool ''parameters'') [] 0 = [])
     (arrayOrEmpty (convertOpenAiResponsesTools normalizeString_trim cx_schema (JArr [nested_def])))"
proof -
  have a: "arrayOrEmpty (convertOpenAiResponsesTools normalizeString_trim cx_schema (JArr [nested_def])) \<noteq> []"
    by code_simp
  have b: "validateOpenAiStrictJsonSchema normalizeString_trim (cx_schema nested_def) [] 0 \<noteq> []"
    by code_simp
  have c: "strict_selftest_ok (convertOpenAiResponsesTools normalizeString_trim cx_schema strict_selftest_defs)"
    by code_simp
  note t = convertOpenAiResponsesTools_strict [of normalizeString_trim cx_schema "JArr [nested_def]",
      THEN conjunct2, THEN conjunct2, THEN conjunct1]
  from t have "list_all (\<lambda>tool. strict_schema normalizeString_trim True (getp tool ''parameters'') \<and>
                    validateOpenAiStrictJsonSchema normalizeString_trim (getp tool ''parameters'') [] 0 = [])
     (arrayOrEmpty (convertOpenAiResponsesTools normalizeString_trim cx_schema (JArr [nested_def])))"
    unfolding list_all_iff by blast
  with a b c show ?thesis by blast
qed


end
